theory Spec2Isabelle
  imports Main
begin

section \<open>Go strings and the library functions the parser calls\<close>

text \<open>
  A Go string is a sequence of bytes; \<^typ>\<open>string\<close> (a list of 8-bit characters) is
  exactly that. The functions of package \<^verbatim>\<open>strings\<close> used by
  \<^verbatim>\<open>internal/guidelines/parser.go\<close> are written out on bytes.
\<close>

definition nl :: string where
  "nl = [CHR 0x0A]"

text \<open>\<^verbatim>\<open>strings.Split(s, "\n")\<close>: the pieces between the newline bytes, one more than
  there are newlines, so never the empty list. \<open>splitFrom cur s\<close> has already read \<open>cur\<close>
  of the current piece.\<close>

fun splitFrom :: "string \<Rightarrow> string \<Rightarrow> string list" where
  "splitFrom cur [] = [cur]"
| "splitFrom cur (c # cs) =
     (if c = CHR 0x0A then cur # splitFrom [] cs else splitFrom (cur @ [c]) cs)"

definition strings_Split :: "string \<Rightarrow> string list" where
  "strings_Split s = splitFrom [] s"

definition strings_HasPrefix :: "string \<Rightarrow> string \<Rightarrow> bool" where
  "strings_HasPrefix s p = (take (length p) s = p)"

fun strings_Contains :: "string \<Rightarrow> string \<Rightarrow> bool" where
  "strings_Contains [] sub = (sub = [])"
| "strings_Contains (c # cs) sub =
     (strings_HasPrefix (c # cs) sub \<or> strings_Contains cs sub)"

text \<open>\<^verbatim>\<open>unicode.IsSpace\<close>: the six ASCII white-space bytes, and the code points U+0085,
  U+00A0, U+1680, U+2000 to U+200A, U+2028, U+2029, U+202F, U+205F and U+3000, which are
  two or three bytes each in UTF-8.\<close>

definition asciiSpace :: "char \<Rightarrow> bool" where
  "asciiSpace c = (c = CHR 0x09 \<or> c = CHR 0x0A \<or> c = CHR 0x0B \<or> c = CHR 0x0C
     \<or> c = CHR 0x0D \<or> c = CHR 0x20)"

definition space2 :: "char \<Rightarrow> char \<Rightarrow> bool" where
  "space2 a b = (a = CHR 0xC2 \<and> (b = CHR 0x85 \<or> b = CHR 0xA0))"

definition space3 :: "char \<Rightarrow> char \<Rightarrow> char \<Rightarrow> bool" where
  "space3 a b c =
     ((a = CHR 0xE1 \<and> b = CHR 0x9A \<and> c = CHR 0x80)
      \<or> (a = CHR 0xE2 \<and> b = CHR 0x80
           \<and> ((128::nat) \<le> of_char c \<and> of_char c \<le> (138::nat)
                \<or> c = CHR 0xA8 \<or> c = CHR 0xA9 \<or> c = CHR 0xAF))
      \<or> (a = CHR 0xE2 \<and> b = CHR 0x81 \<and> c = CHR 0x9F)
      \<or> (a = CHR 0xE3 \<and> b = CHR 0x80 \<and> c = CHR 0x80))"

text \<open>Leading white space: \<^verbatim>\<open>strings.TrimLeftFunc(s, unicode.IsSpace)\<close>.\<close>

fun trimLeftSpace :: "string \<Rightarrow> string" where
  "trimLeftSpace (a # b # c # cs) =
     (if asciiSpace a then trimLeftSpace (b # c # cs)
      else if space2 a b then trimLeftSpace (c # cs)
      else if space3 a b c then trimLeftSpace cs
      else a # b # c # cs)"
| "trimLeftSpace [a, b] =
     (if asciiSpace a then trimLeftSpace [b]
      else if space2 a b then []
      else [a, b])"
| "trimLeftSpace [a] = (if asciiSpace a then [] else [a])"
| "trimLeftSpace [] = []"

text \<open>Trailing white space, on the reversed string: the last rune is a space exactly when
  the string ends with the encoding of one.\<close>

fun trimLeftSpaceRev :: "string \<Rightarrow> string" where
  "trimLeftSpaceRev (c # b # a # cs) =
     (if asciiSpace c then trimLeftSpaceRev (b # a # cs)
      else if space2 b c then trimLeftSpaceRev (a # cs)
      else if space3 a b c then trimLeftSpaceRev cs
      else c # b # a # cs)"
| "trimLeftSpaceRev [c, b] =
     (if asciiSpace c then trimLeftSpaceRev [b]
      else if space2 b c then []
      else [c, b])"
| "trimLeftSpaceRev [c] = (if asciiSpace c then [] else [c])"
| "trimLeftSpaceRev [] = []"

definition strings_TrimSpace :: "string \<Rightarrow> string" where
  "strings_TrimSpace s = rev (trimLeftSpaceRev (rev (trimLeftSpace s)))"

text \<open>
  \<^verbatim>\<open>strings.ToLower\<close>: a string of ASCII bytes only is lowered byte by byte; any other
  string goes through \<^verbatim>\<open>strings.Map(unicode.ToLower, s)\<close>, which needs the case tables of
  the Go runtime. Those tables are not part of this repository, so that mapping is the
  parameter \<open>U\<close> of every function that lowers a string.
\<close>

definition lowerByte :: "char \<Rightarrow> char" where
  "lowerByte c =
     (case map_of (zip ''ABCDEFGHIJKLMNOPQRSTUVWXYZ'' ''abcdefghijklmnopqrstuvwxyz'') c of
        Some d \<Rightarrow> d
      | None \<Rightarrow> c)"

definition isASCII :: "string \<Rightarrow> bool" where
  "isASCII s = list_all (\<lambda>c. of_char c < (128::nat)) s"

definition strings_ToLower :: "(string \<Rightarrow> string) \<Rightarrow> string \<Rightarrow> string" where
  "strings_ToLower U s = (if isASCII s then map lowerByte s else U s)"

text \<open>\<^verbatim>\<open>fmt.Sprintf("%d", i)\<close> for a Go int.\<close>

fun digits :: "nat \<Rightarrow> string" where
  "digits n =
     (if n < 10 then [''0123456789'' ! n]
      else digits (n div 10) @ [''0123456789'' ! (n mod 10)])"

declare digits.simps [simp del]

definition itoa :: "int \<Rightarrow> string" where
  "itoa i = (if i < 0 then CHR ''-'' # digits (nat (- i)) else digits (nat i))"

section \<open>The regular expressions of \<^verbatim>\<open>NewParser\<close>\<close>

text \<open>
  \<^verbatim>\<open>\s\<close> of Go's regexp is \<^verbatim>\<open>[\t\n\f\r ]\<close>; \<^verbatim>\<open>.\<close> is any character but a newline; without
  the multi-line flag \<^verbatim>\<open>^\<close> and \<^verbatim>\<open>$\<close> are the two ends of the text. Both patterns have
  the shape \<^verbatim>\<open>\s+(.+)$\<close> after their first part: the white space is taken greedily, and
  gives its last character back to the group only when nothing else is left for it.
\<close>

definition reSpace :: "char \<Rightarrow> bool" where
  "reSpace c = (c = CHR 0x09 \<or> c = CHR 0x0A \<or> c = CHR 0x0C \<or> c = CHR 0x0D \<or> c = CHR 0x20)"

definition spacesThenText :: "string \<Rightarrow> string option" where
  "spacesThenText s =
     (let w = takeWhile reSpace s; r = dropWhile reSpace s in
      if w = [] then None
      else if r \<noteq> [] then (if CHR 0x0A \<in> set r then None else Some r)
      else if 2 \<le> length w \<and> last w \<noteq> CHR 0x0A then Some [last w]
      else None)"

text \<open>\<^verbatim>\<open>headerRegex.FindStringSubmatch\<close> with pattern \<^verbatim>\<open>^#+\s+(.+)$\<close>: the captured group
  when the line matches.\<close>

definition headerRegex :: "string \<Rightarrow> string option" where
  "headerRegex s =
     (if takeWhile (\<lambda>c. c = CHR ''#'') s = [] then None
      else spacesThenText (dropWhile (\<lambda>c. c = CHR ''#'') s))"

definition headerRegex_MatchString :: "string \<Rightarrow> bool" where
  "headerRegex_MatchString s = (headerRegex s \<noteq> None)"

text \<open>\<^verbatim>\<open>listRegex.FindStringSubmatch\<close> with pattern \<^verbatim>\<open>^[\*\-\+]\s+(.+)$\<close>.\<close>

definition listRegex :: "string \<Rightarrow> string option" where
  "listRegex s =
     (case s of
        [] \<Rightarrow> None
      | c # cs \<Rightarrow>
          if c = CHR ''*'' \<or> c = CHR ''-'' \<or> c = CHR ''+'' then spacesThenText cs else None)"

section \<open>The data model of \<^verbatim>\<open>pkg/types\<close>\<close>

record GuidelineExample =
  ETitle :: string
  Good :: string
  Bad :: string
  Explanation :: string

record Guideline =
  ID :: string
  Title :: string
  Description :: string
  Category :: string
  Priority :: string
  Examples :: "GuidelineExample list"
  Rules :: "string list"

record GuidelineSet =
  Name :: string
  Version :: string
  SetDescription :: string
  Guidelines :: "Guideline list"
  LoadedAt :: string

section \<open>The section splitter\<close>

text \<open>The loop body of \<^verbatim>\<open>splitIntoSections\<close>: the state is the list of closed sections and
  the builder \<^verbatim>\<open>currentSection\<close>.\<close>

definition splitLine :: "string list \<times> string \<Rightarrow> string \<Rightarrow> string list \<times> string" where
  "splitLine st line =
     (let (sections, currentSection) = st;
          (sections', current') =
             (if headerRegex_MatchString line \<and> 0 < length currentSection
              then (sections @ [currentSection], [])
              else (sections, currentSection))
      in (sections', current' @ line @ nl))"

definition splitIntoSections :: "string \<Rightarrow> string list" where
  "splitIntoSections content =
     (let (sections, currentSection) = foldl splitLine ([], []) (strings_Split content)
      in if 0 < length currentSection then sections @ [currentSection] else sections)"

section \<open>The section parser\<close>

definition inferCategory :: "(string \<Rightarrow> string) \<Rightarrow> string \<Rightarrow> string" where
  "inferCategory U title =
     (let titleLower = strings_ToLower U title in
      if strings_Contains titleLower ''type'' \<or> strings_Contains titleLower ''interface''
        then ''typing''
      else if strings_Contains titleLower ''naming'' \<or> strings_Contains titleLower ''convention''
        then ''naming''
      else if strings_Contains titleLower ''function'' \<or> strings_Contains titleLower ''method''
        then ''functions''
      else if strings_Contains titleLower ''import'' \<or> strings_Contains titleLower ''export''
        then ''modules''
      else if strings_Contains titleLower ''error'' \<or> strings_Contains titleLower ''exception''
        then ''error_handling''
      else if strings_Contains titleLower ''async'' \<or> strings_Contains titleLower ''promise''
        then ''async''
      else ''general'')"

definition inferPriority :: "(string \<Rightarrow> string) \<Rightarrow> string \<Rightarrow> string" where
  "inferPriority U title =
     (let titleLower = strings_ToLower U title in
      if strings_Contains titleLower ''must'' \<or> strings_Contains titleLower ''required''
         \<or> strings_Contains titleLower ''critical'' \<or> strings_Contains titleLower ''error''
        then ''high''
      else if strings_Contains titleLower ''should'' \<or> strings_Contains titleLower ''recommend''
        then ''medium''
      else if strings_Contains titleLower ''could'' \<or> strings_Contains titleLower ''consider''
         \<or> strings_Contains titleLower ''style'' \<or> strings_Contains titleLower ''formatting''
        then ''low''
      else ''medium'')"

text \<open>The local variables of \<^verbatim>\<open>parseSection\<close>. \<^verbatim>\<open>currentExample\<close> is a pointer that is nil or
  points to an example no one else holds: appending \<^verbatim>\<open>*currentExample\<close> copies it.\<close>

record scan =
  guideline :: Guideline
  currentContent :: string
  inCodeBlock :: bool
  currentExample :: "GuidelineExample option"

definition newExample :: "string \<Rightarrow> GuidelineExample" where
  "newExample t = \<lparr>ETitle = t, Good = [], Bad = [], Explanation = []\<rparr>"

text \<open>The end of a code block (lines 153 to 166 of the source).\<close>

definition closeCodeBlock :: "(string \<Rightarrow> string) \<Rightarrow> scan \<Rightarrow> scan" where
  "closeCodeBlock U st =
     st\<lparr>currentExample :=
          (case currentExample st of
             None \<Rightarrow> None
           | Some ex \<Rightarrow>
               Some (if strings_Contains (strings_ToLower U (ETitle ex)) ''good''
                        \<or> strings_Contains (strings_ToLower U (ETitle ex)) ''correct''
                        \<or> strings_Contains (strings_ToLower U (ETitle ex)) ''do''
                     then ex\<lparr>Good := strings_TrimSpace (currentContent st)\<rparr>
                     else if strings_Contains (strings_ToLower U (ETitle ex)) ''bad''
                        \<or> strings_Contains (strings_ToLower U (ETitle ex)) ''incorrect''
                        \<or> strings_Contains (strings_ToLower U (ETitle ex)) ''don't''
                     then ex\<lparr>Bad := strings_TrimSpace (currentContent st)\<rparr>
                     else ex)),
        currentContent := [],
        inCodeBlock := False\<rparr>"

text \<open>The start of a code block (lines 168 to 174).\<close>

definition openCodeBlock :: "scan \<Rightarrow> scan" where
  "openCodeBlock st =
     st\<lparr>inCodeBlock := True,
        currentExample :=
          (case currentExample st of
             None \<Rightarrow> Some (newExample ''Code Example'')
           | Some ex \<Rightarrow> Some ex)\<rparr>"

text \<open>An example header (lines 196 to 201): the example in progress is appended to the
  guideline's examples when it has a good or a bad part, and a new one starts.\<close>

definition startExample :: "scan \<Rightarrow> string \<Rightarrow> scan" where
  "startExample st line =
     st\<lparr>guideline :=
          (case currentExample st of
             None \<Rightarrow> guideline st
           | Some ex \<Rightarrow>
               if Good ex \<noteq> [] \<or> Bad ex \<noteq> []
               then (guideline st)\<lparr>Examples := Examples (guideline st) @ [ex]\<rparr>
               else guideline st),
        currentExample := Some (newExample line)\<rparr>"

text \<open>Description and explanation (lines 206 to 210).\<close>

definition plainText :: "scan \<Rightarrow> string \<Rightarrow> scan" where
  "plainText st line =
     (if line \<noteq> [] \<and> Description (guideline st) = []
      then st\<lparr>guideline := (guideline st)\<lparr>Description := line\<rparr>\<rparr>
      else case currentExample st of
             None \<Rightarrow> st
           | Some ex \<Rightarrow>
               if line \<noteq> [] \<and> Explanation ex = []
               then st\<lparr>currentExample := Some (ex\<lparr>Explanation := line\<rparr>)\<rparr>
               else st)"

text \<open>One iteration of the loop over the lines of a section (lines 137 to 211).\<close>

definition scanLine :: "(string \<Rightarrow> string) \<Rightarrow> scan \<Rightarrow> string \<Rightarrow> scan" where
  "scanLine U st raw =
     (let line = strings_TrimSpace raw in
      case headerRegex line of
        Some m \<Rightarrow>
          if Title (guideline st) = []
          then st\<lparr>guideline := (guideline st)
                  \<lparr>Title := m, Category := inferCategory U m, Priority := inferPriority U m\<rparr>\<rparr>
          else st
      | None \<Rightarrow>
          if strings_HasPrefix line ''```''
          then (if inCodeBlock st then closeCodeBlock U st else openCodeBlock st)
          else if inCodeBlock st
          then st\<lparr>currentContent := currentContent st @ line @ nl\<rparr>
          else case listRegex line of
                 Some m \<Rightarrow>
                   st\<lparr>guideline := (guideline st)
                        \<lparr>Rules := Rules (guideline st) @ [strings_TrimSpace m]\<rparr>\<rparr>
               | None \<Rightarrow>
                   if strings_Contains (strings_ToLower U line) ''example''
                      \<or> strings_Contains (strings_ToLower U line) ''good''
                      \<or> strings_Contains (strings_ToLower U line) ''bad''
                   then startExample st line
                   else plainText st line)"

definition initScan :: "int \<Rightarrow> scan" where
  "initScan n =
     \<lparr>guideline = \<lparr>ID = ''guideline_'' @ itoa n, Title = [], Description = [], Category = [],
                    Priority = ''medium'', Examples = [], Rules = []\<rparr>,
      currentContent = [], inCodeBlock = False, currentExample = None\<rparr>"

text \<open>After the loop (lines 213 to 223): the last example, and the description taken from
  the title.\<close>

definition finishScan :: "scan \<Rightarrow> Guideline" where
  "finishScan st =
     (let g = (case currentExample st of
                 None \<Rightarrow> guideline st
               | Some ex \<Rightarrow>
                   if Good ex \<noteq> [] \<or> Bad ex \<noteq> []
                   then (guideline st)\<lparr>Examples := Examples (guideline st) @ [ex]\<rparr>
                   else guideline st)
      in if Description g = [] \<and> Title g \<noteq> [] then g\<lparr>Description := Title g\<rparr> else g)"

text \<open>\<^verbatim>\<open>parseSection\<close>: \<open>None\<close> is the nil pointer.\<close>

definition parseSection :: "(string \<Rightarrow> string) \<Rightarrow> string \<Rightarrow> int \<Rightarrow> Guideline option" where
  "parseSection U section n =
     (let lines = strings_Split section in
      if length lines = 0 then None
      else Some (finishScan (foldl (scanLine U) (initScan n) lines)))"

section \<open>The document parser\<close>

text \<open>The loop of \<^verbatim>\<open>parseContent\<close>: \<open>i\<close> is the index of the next section and \<open>acc\<close> the
  guidelines appended so far. The index is a Go \<^verbatim>\<open>int\<close> of 64 bits that counts sections of
  a string held in memory, so \<open>i + 1\<close> cannot wrap around and the model counts in \<^typ>\<open>int\<close>.\<close>

fun parseSections :: "(string \<Rightarrow> string) \<Rightarrow> int \<Rightarrow> string list \<Rightarrow> Guideline list \<Rightarrow> Guideline list" where
  "parseSections U i [] acc = acc"
| "parseSections U i (s # ss) acc =
     (case parseSection U s (i + 1) of
        None \<Rightarrow> parseSections U (i + 1) ss acc
      | Some g \<Rightarrow> parseSections U (i + 1) ss (acc @ [g]))"

definition parseContent :: "(string \<Rightarrow> string) \<Rightarrow> string \<Rightarrow> Guideline list" where
  "parseContent U content = parseSections U 0 (splitIntoSections content) []"

text \<open>\<^verbatim>\<open>ParseGuidelines\<close> returns a set and an error; \<open>Inl\<close> is a non-nil error. \<open>now\<close> is
  \<^verbatim>\<open>time.Now().Format(time.RFC3339)\<close>, read from the clock by the caller of the model.\<close>

definition ParseGuidelines ::
  "(string \<Rightarrow> string) \<Rightarrow> string \<Rightarrow> string \<Rightarrow> string \<Rightarrow> string \<Rightarrow> string + GuidelineSet" where
  "ParseGuidelines U now content name guidelineType =
     (let guidelineType' = (if guidelineType = [] then ''general'' else guidelineType);
          guidelineSet = \<lparr>Name = name, Version = ''1.0.0'',
                          SetDescription = guidelineType' @ '' coding guidelines'',
                          Guidelines = [], LoadedAt = now\<rparr>
      in Inr (guidelineSet\<lparr>Guidelines := parseContent U content\<rparr>))"

section \<open>The validator\<close>

text \<open>The body of the loop of \<^verbatim>\<open>ValidateGuidelines\<close> for the guideline at index \<open>i\<close>.\<close>

definition validateGuideline :: "int \<Rightarrow> Guideline \<Rightarrow> string list \<Rightarrow> string list" where
  "validateGuideline i g warnings =
     (let w1 = (if Title g = []
                then warnings @ [''Guideline '' @ itoa (i + 1) @ '' has no title'']
                else warnings);
          w2 = (if Description g = []
                then w1 @ [''Guideline '' @ itoa (i + 1) @ '' ('' @ Title g
                            @ '') has no description'']
                else w1)
      in if length (Rules g) = 0 \<and> length (Examples g) = 0
         then w2 @ [''Guideline '' @ itoa (i + 1) @ '' ('' @ Title g
                     @ '') has no rules or examples'']
         else w2)"

fun validateLoop :: "int \<Rightarrow> Guideline list \<Rightarrow> string list \<Rightarrow> string list" where
  "validateLoop i [] warnings = warnings"
| "validateLoop i (g # gs) warnings = validateLoop (i + 1) gs (validateGuideline i g warnings)"

definition ValidateGuidelines :: "GuidelineSet \<Rightarrow> string list" where
  "ValidateGuidelines guidelineSet =
     (let w1 = (if Name guidelineSet = [] then [''Guideline set name is empty''] else []);
          w2 = (if length (Guidelines guidelineSet) = 0
                then w1 @ [''No guidelines found in the set'']
                else w1)
      in validateLoop 0 (Guidelines guidelineSet) w2)"

section \<open>Vocabulary of the properties\<close>

text \<open>The lines of a text, each followed by a newline.\<close>

definition withNewlines :: "string list \<Rightarrow> string" where
  "withNewlines ls = concat (map (\<lambda>l. l @ nl) ls)"

text \<open>No line of the text matches the heading pattern.\<close>

definition noHeadingLines :: "string \<Rightarrow> bool" where
  "noHeadingLines content =
     list_all (\<lambda>l. \<not> headerRegex_MatchString l) (strings_Split content)"

text \<open>How \<^verbatim>\<open>parseSection\<close> sees a raw line of its section: it trims the line first.\<close>

definition headingLine :: "string \<Rightarrow> bool" where
  "headingLine raw = (headerRegex (strings_TrimSpace raw) \<noteq> None)"

definition fenceLine :: "string \<Rightarrow> bool" where
  "fenceLine raw = strings_HasPrefix (strings_TrimSpace raw) ''```''"

definition exampleHeaderLine :: "(string \<Rightarrow> string) \<Rightarrow> string \<Rightarrow> bool" where
  "exampleHeaderLine U raw =
     (let line = strings_TrimSpace raw in
      headerRegex line = None \<and> \<not> strings_HasPrefix line ''```'' \<and> listRegex line = None
      \<and> (strings_Contains (strings_ToLower U line) ''example''
           \<or> strings_Contains (strings_ToLower U line) ''good''
           \<or> strings_Contains (strings_ToLower U line) ''bad''))"

text \<open>The two tests on an example's title at the end of a code block.\<close>

definition goodTitle :: "(string \<Rightarrow> string) \<Rightarrow> string \<Rightarrow> bool" where
  "goodTitle U t =
     (strings_Contains (strings_ToLower U t) ''good''
      \<or> strings_Contains (strings_ToLower U t) ''correct''
      \<or> strings_Contains (strings_ToLower U t) ''do'')"

definition badTitle :: "(string \<Rightarrow> string) \<Rightarrow> string \<Rightarrow> bool" where
  "badTitle U t =
     (strings_Contains (strings_ToLower U t) ''bad''
      \<or> strings_Contains (strings_ToLower U t) ''incorrect''
      \<or> strings_Contains (strings_ToLower U t) ''don't'')"

text \<open>What the lines between two fences leave in \<^verbatim>\<open>currentContent\<close>: each line trimmed and
  followed by a newline; a line that is a heading is taken by the heading case and leaves
  nothing.\<close>

definition codeContent :: "string list \<Rightarrow> string" where
  "codeContent body =
     concat (map (\<lambda>l. strings_TrimSpace l @ nl) (filter (\<lambda>l. \<not> headingLine l) body))"

text \<open>A complete fenced block with the lines that follow it up to the next block: the
  opening fence, the lines inside, the closing fence, the lines after. No line inside or
  after is a fence, and no line after is an example header.\<close>

type_synonym block = "string \<times> string list \<times> string \<times> string list"

definition blockLines :: "block \<Rightarrow> string list" where
  "blockLines b = (case b of (fence1, body, fence2, after) \<Rightarrow> fence1 # body @ fence2 # after)"

definition blockBody :: "block \<Rightarrow> string list" where
  "blockBody b = (case b of (fence1, body, fence2, after) \<Rightarrow> body)"

definition completeBlock :: "(string \<Rightarrow> string) \<Rightarrow> block \<Rightarrow> bool" where
  "completeBlock U b =
     (case b of (fence1, body, fence2, after) \<Rightarrow>
        fenceLine fence1 \<and> fenceLine fence2
        \<and> list_all (\<lambda>l. \<not> fenceLine l) body
        \<and> list_all (\<lambda>l. \<not> fenceLine l \<and> \<not> exampleHeaderLine U l) after)"

text \<open>The enumerated values of the two inferred fields.\<close>

definition categories :: "string list" where
  "categories = [''typing'', ''naming'', ''functions'', ''modules'', ''error_handling'',
     ''async'', ''general'']"

definition priorities :: "string list" where
  "priorities = [''high'', ''medium'', ''low'']"

text \<open>The two inferred fields of a guideline: the priority is enumerated; the category is
  enumerated when the guideline has a title and empty when it has none.\<close>

definition inferredOk :: "Guideline \<Rightarrow> bool" where
  "inferredOk g =
     (Priority g \<in> set priorities
      \<and> (if Title g = [] then Category g = [] else Category g \<in> set categories))"

definition exampleFilled :: "GuidelineExample \<Rightarrow> bool" where
  "exampleFilled e = (Good e \<noteq> [] \<or> Bad e \<noteq> [])"

text \<open>The warnings of the validator as its contract lists them: for the guideline at the
  1-based position \<open>n\<close>, then for the whole set.\<close>

definition guidelineWarnings :: "int \<Rightarrow> Guideline \<Rightarrow> string list" where
  "guidelineWarnings n g =
     (if Title g = [] then [''Guideline '' @ itoa n @ '' has no title''] else [])
     @ (if Description g = []
        then [''Guideline '' @ itoa n @ '' ('' @ Title g @ '') has no description'']
        else [])
     @ (if Rules g = [] \<and> Examples g = []
        then [''Guideline '' @ itoa n @ '' ('' @ Title g @ '') has no rules or examples'']
        else [])"

definition specWarnings :: "GuidelineSet \<Rightarrow> string list" where
  "specWarnings gs =
     (if Name gs = [] then [''Guideline set name is empty''] else [])
     @ (if Guidelines gs = [] then [''No guidelines found in the set''] else [])
     @ concat (map (\<lambda>k. guidelineWarnings (int k + 1) (Guidelines gs ! k))
                [0..<length (Guidelines gs)])"

section \<open>The splitter keeps every line\<close>

lemma splitFrom_withNewlines: "withNewlines (splitFrom cur s) = cur @ s @ nl"
  by (induction s arbitrary: cur) (simp_all add: withNewlines_def nl_def)

lemma strings_Split_withNewlines: "withNewlines (strings_Split s) = s @ nl"
  by (simp add: strings_Split_def splitFrom_withNewlines)

lemma splitFrom_not_Nil: "splitFrom cur s \<noteq> []"
  by (induction s arbitrary: cur) simp_all

lemma strings_Split_not_Nil: "strings_Split s \<noteq> []"
  by (simp add: strings_Split_def splitFrom_not_Nil)

lemma splitLine_concat:
  "splitLine (secs, cur) l = (secs', cur') \<Longrightarrow> concat secs' @ cur' = concat secs @ cur @ l @ nl"
  by (auto simp: splitLine_def split: if_splits)

lemma foldl_splitLine_concat:
  "foldl splitLine (secs, cur) ls = (secs', cur') \<Longrightarrow>
     concat secs' @ cur' = concat secs @ cur @ withNewlines ls"
proof (induction ls arbitrary: secs cur)
  case Nil
  then show ?case by (simp add: withNewlines_def)
next
  case (Cons l ls)
  obtain s1 c1 where step: "splitLine (secs, cur) l = (s1, c1)"
    by (cases "splitLine (secs, cur) l")
  with Cons.prems have "foldl splitLine (s1, c1) ls = (secs', cur')" by simp
  then have "concat secs' @ cur' = concat s1 @ c1 @ withNewlines ls"
    by (rule Cons.IH)
  with splitLine_concat [OF step] show ?case
    by (simp add: withNewlines_def)
qed

lemma splitIntoSections_concat:
  "concat (splitIntoSections content) = withNewlines (strings_Split content)"
proof -
  obtain secs cur where f: "foldl splitLine ([], []) (strings_Split content) = (secs, cur)"
    by (cases "foldl splitLine ([], []) (strings_Split content)")
  from foldl_splitLine_concat [OF f]
  have "concat secs @ cur = withNewlines (strings_Split content)" by simp
  with f show ?thesis
    by (auto simp: splitIntoSections_def)
qed

lemma foldl_splitLine_no_heading:
  "list_all (\<lambda>l. \<not> headerRegex_MatchString l) ls \<Longrightarrow>
     foldl splitLine (secs, cur) ls = (secs, cur @ withNewlines ls)"
  by (induction ls arbitrary: cur) (simp_all add: withNewlines_def splitLine_def)

text \<open>
  Claim C1, as the code has it. The splitter writes a newline after every piece of
  \<^verbatim>\<open>strings.Split(content, "\n")\<close>, also after the last one, which had none: the sections,
  concatenated in order, are the input followed by one newline, that is, every line of the
  input in order, each followed by a newline.
\<close>

theorem C1_sections_concat:
  "concat (splitIntoSections content) = content @ nl
   \<and> concat (splitIntoSections content) = withNewlines (strings_Split content)"
  by (simp add: splitIntoSections_concat strings_Split_withNewlines)

theorem C1_sections_concat_witness:
  "concat (splitIntoSections ''# a\<newline>b\<newline># c'') = ''# a\<newline>b\<newline># c\<newline>''"
  using C1_sections_concat [of "''# a\<newline>b\<newline># c''"] by (simp add: nl_def)

text \<open>Claim C1 as stated fails: the sections of the input \<open>a\<close> concatenate to \<open>a\<close> and a
  newline, not to the input.\<close>

theorem C1_roundtrip_counterexample:
  "concat (splitIntoSections ''a'') \<noteq> ''a''"
  by (simp add: splitIntoSections_def strings_Split_def splitLine_def headerRegex_MatchString_def
      headerRegex_def nl_def)

text \<open>
  Claim C6, as the code has it. When no line of the input matches the heading pattern, the
  splitter returns exactly one section: the input followed by one newline.
\<close>

theorem C6_no_heading_one_section:
  "noHeadingLines content \<Longrightarrow> splitIntoSections content = [content @ nl]"
  by (simp add: noHeadingLines_def splitIntoSections_def foldl_splitLine_no_heading
      strings_Split_withNewlines nl_def)

theorem C6_no_heading_one_section_witness:
  "noHeadingLines ''a\<newline>#b'' \<and> splitIntoSections ''a\<newline>#b'' = [''a\<newline>#b\<newline>'']"
proof -
  have h: "noHeadingLines ''a\<newline>#b''"
    by (simp add: noHeadingLines_def strings_Split_def headerRegex_MatchString_def headerRegex_def
        spacesThenText_def)
  from C6_no_heading_one_section [OF h] h show ?thesis by (simp add: nl_def)
qed

text \<open>Claim C6 as stated fails: the input \<open>a\<close> has no heading line, and its one section is
  not the input.\<close>

theorem C6_whole_input_counterexample:
  "noHeadingLines ''a'' \<and> splitIntoSections ''a'' \<noteq> [''a'']"
  by (simp add: noHeadingLines_def splitIntoSections_def strings_Split_def splitLine_def
      headerRegex_MatchString_def headerRegex_def nl_def)

section \<open>Unfolding the model\<close>

lemmas model_defs =
  parseContent_def splitIntoSections_def strings_Split_def splitLine_def headerRegex_MatchString_def
  headerRegex_def spacesThenText_def reSpace_def nl_def parseSection_def scanLine_def
  closeCodeBlock_def openCodeBlock_def startExample_def plainText_def newExample_def
  initScan_def finishScan_def strings_TrimSpace_def asciiSpace_def space2_def space3_def
  strings_HasPrefix_def strings_ToLower_def isASCII_def lowerByte_def listRegex_def
  inferCategory_def inferPriority_def itoa_def digits.simps

lemmas vocabulary_defs =
  headingLine_def fenceLine_def exampleHeaderLine_def goodTitle_def badTitle_def codeContent_def
  blockLines_def blockBody_def completeBlock_def

lemmas scan_defs =
  scanLine_def closeCodeBlock_def openCodeBlock_def startExample_def plainText_def Let_def

section \<open>The document parser always returns a set\<close>

text \<open>
  Claim C7. For every content, name and kind, \<^verbatim>\<open>ParseGuidelines\<close> returns a set and a nil
  error: the set has the given name, version \<open>1.0.0\<close>, the description
  \<open><kind> coding guidelines\<close> with \<open>general\<close> for an empty kind, the guidelines of the content
  and the time stamp it was given. The model is a total function, so a set is produced for
  any input.
\<close>

theorem C7_ParseGuidelines_total:
  "\<exists>gs. ParseGuidelines U now content name guidelineType = Inr gs
     \<and> Name gs = name
     \<and> Version gs = ''1.0.0''
     \<and> SetDescription gs
         = (if guidelineType = [] then ''general'' else guidelineType) @ '' coding guidelines''
     \<and> Guidelines gs = parseContent U content
     \<and> LoadedAt gs = now"
  by (simp add: ParseGuidelines_def)

theorem C7_ParseGuidelines_total_witness:
  "\<exists>gs. ParseGuidelines (\<lambda>s. s) ''2024-05-01T10:00:00Z'' ''# A'' ''team.md'' [] = Inr gs
     \<and> Name gs = ''team.md''
     \<and> Version gs = ''1.0.0''
     \<and> SetDescription gs = ''general coding guidelines''
     \<and> LoadedAt gs = ''2024-05-01T10:00:00Z''"
  using C7_ParseGuidelines_total [of "\<lambda>s. s" "''2024-05-01T10:00:00Z''" "''# A''" "''team.md''" "[]"]
  by auto

section \<open>The warnings of the validator\<close>

lemma validateGuideline_append:
  "validateGuideline i g warnings = warnings @ guidelineWarnings (i + 1) g"
  by (simp add: validateGuideline_def guidelineWarnings_def Let_def)

lemma validateLoop_append:
  "validateLoop i gs warnings
     = warnings @ concat (map (\<lambda>k. guidelineWarnings (i + int k + 1) (gs ! k)) [0..<length gs])"
proof (induction gs arbitrary: i warnings)
  case Nil
  show ?case by simp
next
  case (Cons g gs)
  have "map (\<lambda>k. guidelineWarnings (i + int k + 1) ((g # gs) ! k)) [0..<length (g # gs)]
          = guidelineWarnings (i + 1) g
            # map (\<lambda>k. guidelineWarnings (i + 1 + int k + 1) (gs ! k)) [0..<length gs]"
    by (simp add: map_upt_Suc add.commute add.left_commute del: upt_Suc)
  then show ?case
    by (simp add: Cons.IH validateGuideline_append del: upt_Suc)
qed

text \<open>
  Claim C9. The loop of the validator returns the warnings its contract lists, in that
  order: the name warning exactly when the name is empty, the count warning exactly when
  there is no guideline, then for each guideline in order, numbered from 1, the title, the
  description and the rules-or-examples warning, each exactly when its condition holds. On
  a set with an empty name and no guideline these are the two set warnings. The validator
  is a total function of the set and returns nothing but the warnings: it cannot fail and
  has no way to change the set.
\<close>

theorem C9_validator_warnings:
  "ValidateGuidelines gs = specWarnings gs
   \<and> (Name gs = [] \<and> Guidelines gs = [] \<longrightarrow>
        ValidateGuidelines gs = [''Guideline set name is empty'', ''No guidelines found in the set''])"
  by (simp add: ValidateGuidelines_def specWarnings_def validateLoop_append)

theorem C9_validator_warnings_witness:
  "ValidateGuidelines \<lparr>Name = [], Version = ''1.0.0'', SetDescription = ''d'', Guidelines = [],
       LoadedAt = ''t''\<rparr>
     = [''Guideline set name is empty'', ''No guidelines found in the set'']
   \<and> ValidateGuidelines \<lparr>Name = ''n'', Version = ''1.0.0'', SetDescription = ''d'',
       Guidelines = [\<lparr>ID = ''guideline_1'', Title = ''T'', Description = [], Category = ''general'',
                      Priority = ''medium'', Examples = [], Rules = [''r'']\<rparr>,
                     \<lparr>ID = ''guideline_2'', Title = [], Description = ''d'', Category = [],
                      Priority = ''medium'', Examples = [], Rules = []\<rparr>],
       LoadedAt = ''t''\<rparr>
     = [''Guideline 1 (T) has no description'', ''Guideline 2 has no title'',
        ''Guideline 2 () has no rules or examples'']"
proof -
  let ?e = "\<lparr>Name = [], Version = ''1.0.0'', SetDescription = ''d'', Guidelines = [],
       LoadedAt = ''t''\<rparr>"
  let ?s = "\<lparr>Name = ''n'', Version = ''1.0.0'', SetDescription = ''d'',
       Guidelines = [\<lparr>ID = ''guideline_1'', Title = ''T'', Description = [], Category = ''general'',
                      Priority = ''medium'', Examples = [], Rules = [''r'']\<rparr>,
                     \<lparr>ID = ''guideline_2'', Title = [], Description = ''d'', Category = [],
                      Priority = ''medium'', Examples = [], Rules = []\<rparr>],
       LoadedAt = ''t''\<rparr>"
  have a: "ValidateGuidelines ?e
             = [''Guideline set name is empty'', ''No guidelines found in the set'']"
    using C9_validator_warnings [of ?e, THEN conjunct2] by simp
  have "ValidateGuidelines ?s = specWarnings ?s"
    by (rule C9_validator_warnings [THEN conjunct1])
  also have "specWarnings ?s = [''Guideline 1 (T) has no description'', ''Guideline 2 has no title'',
        ''Guideline 2 () has no rules or examples'']"
    by (simp add: specWarnings_def guidelineWarnings_def itoa_def digits.simps upt_rec)
  finally show ?thesis using a by simp
qed

section \<open>Identifiers\<close>


lemma parseSection_Some: "\<exists>g. parseSection U s n = Some g"
  by (simp add: parseSection_def Let_def strings_Split_not_Nil)

lemma ID_scanLine [simp]: "ID (guideline (scanLine U st l)) = ID (guideline st)"
  by (simp add: scanLine_def Let_def closeCodeBlock_def openCodeBlock_def startExample_def
      plainText_def split: option.splits)

lemma ID_foldl_scanLine [simp]: "ID (guideline (foldl (scanLine U) st ls)) = ID (guideline st)"
  by (induction ls arbitrary: st) simp_all

lemma ID_finishScan [simp]: "ID (finishScan st) = ID (guideline st)"
  by (simp add: finishScan_def Let_def split: option.splits)

lemma parseSection_ID: "parseSection U s n = Some g \<Longrightarrow> ID g = ''guideline_'' @ itoa n"
  by (auto simp: parseSection_def Let_def initScan_def split: if_splits)

lemma parseSections_map_filter:
  "parseSections U i ss acc
     = acc @ List.map_filter (\<lambda>k. parseSection U (ss ! k) (i + int k + 1)) [0..<length ss]"
proof (induction ss arbitrary: i acc)
  case Nil
  show ?case by (simp add: List.map_filter_simps)
next
  case (Cons s ss)
  have "[0..<Suc (length ss)] = 0 # [Suc 0..<Suc (length ss)]"
    by (rule upt_conv_Cons) simp
  then have "[0..<length (s # ss)] = 0 # map Suc [0..<length ss]"
    by (simp only: length_Cons map_Suc_upt)
  then have "List.map_filter (\<lambda>k. parseSection U ((s # ss) ! k) (i + int k + 1)) [0..<length (s # ss)]
      = (case parseSection U s (i + 1) of None \<Rightarrow> [] | Some g \<Rightarrow> [g])
        @ List.map_filter (\<lambda>k. parseSection U (ss ! k) (i + 1 + int k + 1)) [0..<length ss]"
    by (simp add: List.map_filter_def filter_map comp_def add.commute add.left_commute
        split: option.splits)
  then show ?case
    by (simp add: Cons.IH split: option.splits)
qed



lemma map_filter_all_Some:
  "(\<And>x. f x \<noteq> None) \<Longrightarrow> List.map_filter f xs = map (\<lambda>x. the (f x)) xs"
  by (induction xs) (auto simp: List.map_filter_simps split: option.splits)

lemma parseContent_dense_ids:
  "map ID (parseContent U content)
     = map (\<lambda>k. ''guideline_'' @ itoa (int k + 1)) [0..<length (splitIntoSections content)]"
proof -
  have some: "\<And>k. parseSection U (splitIntoSections content ! k) (int k + 1) \<noteq> None"
    using parseSection_Some by (metis option.distinct(1))
  have "ID (the (parseSection U s n)) = ''guideline_'' @ itoa n" for s n
    using parseSection_Some [of U s n] parseSection_ID by fastforce
  then show ?thesis
    by (simp add: parseContent_def parseSections_map_filter map_filter_all_Some [OF some])
qed

section \<open>The examples list\<close>

lemma scanLine_examples:
  "Examples (guideline (scanLine U st l)) = Examples (guideline st)
   \<or> (\<exists>ex. currentExample st = Some ex \<and> exampleFilled ex \<and> exampleHeaderLine U l
          \<and> \<not> inCodeBlock st
          \<and> Examples (guideline (scanLine U st l)) = Examples (guideline st) @ [ex])"
  by (auto simp: scan_defs exampleFilled_def exampleHeaderLine_def split: option.splits)

lemma finishScan_examples:
  "Examples (finishScan st)
     = Examples (guideline st)
       @ (case currentExample st of
            None \<Rightarrow> []
          | Some ex \<Rightarrow> if exampleFilled ex then [ex] else [])"
  by (simp add: finishScan_def Let_def exampleFilled_def split: option.splits)

lemma scanLine_filled:
  "list_all exampleFilled (Examples (guideline st)) \<Longrightarrow>
     list_all exampleFilled (Examples (guideline (scanLine U st l)))"
  using scanLine_examples [of U st l] by auto

lemma foldl_scanLine_filled:
  "list_all exampleFilled (Examples (guideline st)) \<Longrightarrow>
     list_all exampleFilled (Examples (guideline (foldl (scanLine U) st ls)))"
  by (induction ls arbitrary: st) (simp_all add: scanLine_filled)

lemma parseSection_filled:
  "parseSection U s n = Some g \<Longrightarrow> list_all exampleFilled (Examples g)"
proof -
  assume a: "parseSection U s n = Some g"
  have "list_all exampleFilled (Examples (guideline (foldl (scanLine U) (initScan n) (strings_Split s))))"
    by (rule foldl_scanLine_filled) (simp add: initScan_def)
  with a show ?thesis
    by (auto simp: parseSection_def Let_def finishScan_examples split: if_splits option.splits)
qed

lemma parseSections_all:
  "(\<And>s n g. parseSection U s n = Some g \<Longrightarrow> P g) \<Longrightarrow> list_all P acc \<Longrightarrow>
     list_all P (parseSections U i ss acc)"
  by (induction ss arbitrary: i acc) (auto split: option.splits)

lemma parseContent_all:
  "(\<And>s n g. parseSection U s n = Some g \<Longrightarrow> P g) \<Longrightarrow> g \<in> set (parseContent U content) \<Longrightarrow> P g"
  using parseSections_all [of U P "[]" 0 "splitIntoSections content"]
  by (simp add: parseContent_def list_all_iff)

text \<open>
  Claim C8. In every guideline of every document, every entry of the examples list has a
  non-empty good or a non-empty bad field. The list grows in two places only: one line of
  the scan leaves it as it is or, on an example-header line, appends the example in
  progress, whose good or bad field is then non-empty; the end of the scan appends the
  example in progress exactly when its good or bad field is non-empty.
\<close>

theorem C8_examples_never_empty:
  "(\<forall>g\<in>set (parseContent U content). \<forall>e\<in>set (Examples g). Good e \<noteq> [] \<or> Bad e \<noteq> [])
   \<and> (\<forall>st l. Examples (guideline (scanLine U st l)) = Examples (guideline st)
         \<or> (\<exists>ex. currentExample st = Some ex \<and> (Good ex \<noteq> [] \<or> Bad ex \<noteq> [])
               \<and> exampleHeaderLine U l
               \<and> Examples (guideline (scanLine U st l)) = Examples (guideline st) @ [ex]))
   \<and> (\<forall>st. Examples (finishScan st)
         = Examples (guideline st)
           @ (case currentExample st of
                None \<Rightarrow> []
              | Some ex \<Rightarrow> if Good ex \<noteq> [] \<or> Bad ex \<noteq> [] then [ex] else []))"
proof (intro conjI ballI allI)
  fix g e
  assume "g \<in> set (parseContent U content)" and e: "e \<in> set (Examples g)"
  then have "list_all exampleFilled (Examples g)"
    using parseContent_all [of U "\<lambda>g. list_all exampleFilled (Examples g)"] parseSection_filled
    by blast
  with e show "Good e \<noteq> [] \<or> Bad e \<noteq> []"
    by (auto simp: list_all_iff exampleFilled_def)
next
  fix st l
  show "Examples (guideline (scanLine U st l)) = Examples (guideline st)
         \<or> (\<exists>ex. currentExample st = Some ex \<and> (Good ex \<noteq> [] \<or> Bad ex \<noteq> [])
               \<and> exampleHeaderLine U l
               \<and> Examples (guideline (scanLine U st l)) = Examples (guideline st) @ [ex])"
    using scanLine_examples [of U st l] by (auto simp: exampleFilled_def)
next
  fix st
  show "Examples (finishScan st)
         = Examples (guideline st)
           @ (case currentExample st of
                None \<Rightarrow> []
              | Some ex \<Rightarrow> if Good ex \<noteq> [] \<or> Bad ex \<noteq> [] then [ex] else [])"
    by (simp add: finishScan_examples exampleFilled_def split: option.splits)
qed

theorem C8_examples_never_empty_witness:
  "\<lparr>ID = ''guideline_1'', Title = ''T'', Description = ''T'', Category = ''general'',
      Priority = ''medium'',
      Examples = [\<lparr>ETitle = ''Good example'', Good = ''x'', Bad = [], Explanation = []\<rparr>],
      Rules = []\<rparr>
     \<in> set (parseContent (\<lambda>s. s) ''# T\<newline>Good example\<newline>```\<newline>x\<newline>```'')
   \<and> exampleFilled \<lparr>ETitle = ''Good example'', Good = ''x'', Bad = [], Explanation = []\<rparr>"
proof -
  let ?e = "\<lparr>ETitle = ''Good example'', Good = ''x'', Bad = [], Explanation = []\<rparr>"
  let ?g = "\<lparr>ID = ''guideline_1'', Title = ''T'', Description = ''T'', Category = ''general'',
      Priority = ''medium'', Examples = [?e], Rules = []\<rparr>"
  have "parseContent (\<lambda>s. s) ''# T\<newline>Good example\<newline>```\<newline>x\<newline>```'' = [?g]"
    by (simp add: model_defs)
  then have m: "?g \<in> set (parseContent (\<lambda>s. s) ''# T\<newline>Good example\<newline>```\<newline>x\<newline>```'')"
    by simp
  have "?e \<in> set (Examples ?g)" by simp
  with m C8_examples_never_empty [of "\<lambda>s. s" "''# T\<newline>Good example\<newline>```\<newline>x\<newline>```''"]
  have "Good ?e \<noteq> [] \<or> Bad ?e \<noteq> []" by blast
  then have "exampleFilled ?e" by (simp add: exampleFilled_def)
  with m show ?thesis by simp
qed

section \<open>Category and priority\<close>

lemma spacesThenText_nonempty: "spacesThenText s = Some m \<Longrightarrow> m \<noteq> []"
  by (auto simp: spacesThenText_def Let_def split: if_splits)

lemma headerRegex_nonempty: "headerRegex l = Some m \<Longrightarrow> m \<noteq> []"
  by (auto simp: headerRegex_def spacesThenText_nonempty split: if_splits)

lemma inferCategory_enumerated: "inferCategory U t \<in> set categories"
  by (simp add: inferCategory_def categories_def Let_def)

lemma inferPriority_enumerated: "inferPriority U t \<in> set priorities"
  by (simp add: inferPriority_def priorities_def Let_def)

lemma scanLine_Title_empty:
  "(Title (guideline (scanLine U st l)) = []) = (Title (guideline st) = [] \<and> \<not> headingLine l)"
  by (auto simp: scan_defs headingLine_def dest: headerRegex_nonempty split: option.splits)

lemma foldl_scanLine_Title_empty:
  "(Title (guideline (foldl (scanLine U) st ls)) = [])
     = (Title (guideline st) = [] \<and> \<not> list_ex headingLine ls)"
  by (induction ls arbitrary: st) (auto simp: scanLine_Title_empty)

lemma scanLine_inferredOk:
  "inferredOk (guideline st) \<Longrightarrow> inferredOk (guideline (scanLine U st l))"
  by (auto simp: scan_defs inferredOk_def inferCategory_enumerated inferPriority_enumerated
      dest: headerRegex_nonempty split: option.splits if_splits)

lemma foldl_scanLine_inferredOk:
  "inferredOk (guideline st) \<Longrightarrow> inferredOk (guideline (foldl (scanLine U) st ls))"
  by (induction ls arbitrary: st) (simp_all add: scanLine_inferredOk)

lemma finishScan_fields:
  "Title (finishScan st) = Title (guideline st)
   \<and> Category (finishScan st) = Category (guideline st)
   \<and> Priority (finishScan st) = Priority (guideline st)"
  by (simp add: finishScan_def Let_def split: option.splits)

lemma parseSection_inferred:
  assumes "parseSection U s n = Some g"
  shows "inferredOk g" and "(Title g = []) = (\<not> list_ex headingLine (strings_Split s))"
proof -
  let ?st = "foldl (scanLine U) (initScan n) (strings_Split s)"
  from assms have g: "g = finishScan ?st"
    by (simp add: parseSection_def Let_def split: if_splits)
  have "inferredOk (guideline ?st)"
    by (rule foldl_scanLine_inferredOk) (simp add: inferredOk_def initScan_def priorities_def)
  then show "inferredOk g"
    by (simp add: g inferredOk_def finishScan_fields)
  show "(Title g = []) = (\<not> list_ex headingLine (strings_Split s))"
    by (simp add: g finishScan_fields foldl_scanLine_Title_empty initScan_def)
qed

text \<open>
  Claim C4, as the code has it. In every guideline of every document the priority is one
  of \<open>high\<close>, \<open>medium\<close>, \<open>low\<close>, and the category is one of the seven categories or, for a
  guideline without a title, the empty string. For a section parsed on its own: the
  category is one of the seven when some line of the section, trimmed, matches the heading
  pattern, and it is the empty string when no line does.
\<close>

theorem C4_priority_and_category:
  "(\<forall>g\<in>set (parseContent U content).
       Priority g \<in> set priorities
       \<and> (Category g \<in> set categories \<or> Category g = [] \<and> Title g = []))
   \<and> (\<forall>s n g. parseSection U s n = Some g \<longrightarrow>
         Priority g \<in> set priorities
         \<and> (if list_ex headingLine (strings_Split s)
             then Category g \<in> set categories
             else Category g = []))"
proof (intro conjI ballI allI impI)
  fix g
  assume "g \<in> set (parseContent U content)"
  then have "inferredOk g"
    using parseContent_all [of U inferredOk] parseSection_inferred(1) by blast
  then show "Priority g \<in> set priorities"
    and "Category g \<in> set categories \<or> Category g = [] \<and> Title g = []"
    by (auto simp: inferredOk_def split: if_splits)
next
  fix s n g
  assume a: "parseSection U s n = Some g"
  from parseSection_inferred [OF a]
  show "Priority g \<in> set priorities"
    and "if list_ex headingLine (strings_Split s)
         then Category g \<in> set categories else Category g = []"
    by (auto simp: inferredOk_def split: if_splits)
qed

theorem C4_priority_and_category_witness:
  "parseSection (\<lambda>s. s) ''# Must Fix This\<newline>'' 1
     = Some \<lparr>ID = ''guideline_1'', Title = ''Must Fix This'', Description = ''Must Fix This'',
             Category = ''general'', Priority = ''high'', Examples = [], Rules = []\<rparr>
   \<and> list_ex headingLine (strings_Split ''# Must Fix This\<newline>'')
   \<and> ''general'' \<in> set categories
   \<and> ''high'' \<in> set priorities"
proof -
  let ?g = "\<lparr>ID = ''guideline_1'', Title = ''Must Fix This'', Description = ''Must Fix This'',
             Category = ''general'', Priority = ''high'', Examples = [], Rules = []\<rparr>"
  have p: "parseSection (\<lambda>s. s) ''# Must Fix This\<newline>'' 1 = Some ?g"
    by (simp add: model_defs)
  have h: "list_ex headingLine (strings_Split ''# Must Fix This\<newline>'')"
    by (simp add: headingLine_def model_defs)
  from C4_priority_and_category [of "\<lambda>s. s" "[]"] p
  have "Priority ?g \<in> set priorities
     \<and> (if list_ex headingLine (strings_Split ''# Must Fix This\<newline>'')
         then Category ?g \<in> set categories else Category ?g = [])"
    by blast
  with h have "''general'' \<in> set categories \<and> ''high'' \<in> set priorities"
    by simp
  with p h show ?thesis by simp
qed

text \<open>Claim C4 as stated fails: the document \<open>hello\<close> has no heading line, and the category
  of its one guideline is the empty string, which is none of the seven categories.\<close>

theorem C4_empty_category_counterexample:
  "parseContent (\<lambda>s. s) ''hello''
     = [\<lparr>ID = ''guideline_1'', Title = [], Description = ''hello'', Category = [],
         Priority = ''medium'', Examples = [], Rules = []\<rparr>]
   \<and> [] \<notin> set categories"
  by (simp add: model_defs categories_def)

section \<open>Code blocks under one example header\<close>

lemma fence_not_header: "strings_HasPrefix t ''```'' \<Longrightarrow> headerRegex t = None"
  by (cases t) (auto simp: strings_HasPrefix_def headerRegex_def)

lemma scanLine_open:
  "fenceLine l \<Longrightarrow> \<not> inCodeBlock st \<Longrightarrow> scanLine U st l = openCodeBlock st"
  by (simp add: scanLine_def Let_def fenceLine_def fence_not_header)

lemma scanLine_close:
  "fenceLine l \<Longrightarrow> inCodeBlock st \<Longrightarrow> scanLine U st l = closeCodeBlock U st"
  by (simp add: scanLine_def Let_def fenceLine_def fence_not_header)

lemma scanLine_inside:
  "inCodeBlock st \<Longrightarrow> \<not> fenceLine l \<Longrightarrow>
     inCodeBlock (scanLine U st l)
     \<and> currentExample (scanLine U st l) = currentExample st
     \<and> currentContent (scanLine U st l) = currentContent st @ codeContent [l]"
  by (auto simp: scanLine_def Let_def fenceLine_def headingLine_def codeContent_def
      split: option.splits)

lemma codeContent_Cons: "codeContent (l # ls) = codeContent [l] @ codeContent ls"
  by (simp add: codeContent_def)

lemma foldl_scanLine_inside:
  "inCodeBlock st \<Longrightarrow> list_all (\<lambda>l. \<not> fenceLine l) body \<Longrightarrow>
     inCodeBlock (foldl (scanLine U) st body)
     \<and> currentExample (foldl (scanLine U) st body) = currentExample st
     \<and> currentContent (foldl (scanLine U) st body) = currentContent st @ codeContent body"
proof (induction body arbitrary: st)
  case Nil
  then show ?case by (simp add: codeContent_def)
next
  case (Cons l body)
  from Cons.prems have step: "inCodeBlock (scanLine U st l)
     \<and> currentExample (scanLine U st l) = currentExample st
     \<and> currentContent (scanLine U st l) = currentContent st @ codeContent [l]"
    by (simp add: scanLine_inside)
  from Cons.prems step Cons.IH [of "scanLine U st l"] show ?case
    by (simp add: codeContent_Cons [of l body])
qed

lemma scanLine_outside:
  assumes "\<not> inCodeBlock st" "currentContent st = []" "currentExample st = Some ex"
    and "\<not> fenceLine l" "\<not> exampleHeaderLine U l"
  shows "\<not> inCodeBlock (scanLine U st l) \<and> currentContent (scanLine U st l) = []
     \<and> (\<exists>ex'. currentExample (scanLine U st l) = Some ex'
            \<and> ETitle ex' = ETitle ex \<and> Good ex' = Good ex \<and> Bad ex' = Bad ex)"
  using assms
  by (auto simp: scanLine_def Let_def plainText_def fenceLine_def exampleHeaderLine_def
      split: option.splits)

lemma foldl_scanLine_outside:
  "\<not> inCodeBlock st \<Longrightarrow> currentContent st = [] \<Longrightarrow> currentExample st = Some ex \<Longrightarrow>
   list_all (\<lambda>l. \<not> fenceLine l \<and> \<not> exampleHeaderLine U l) after \<Longrightarrow>
     \<not> inCodeBlock (foldl (scanLine U) st after) \<and> currentContent (foldl (scanLine U) st after) = []
     \<and> (\<exists>ex'. currentExample (foldl (scanLine U) st after) = Some ex'
            \<and> ETitle ex' = ETitle ex \<and> Good ex' = Good ex \<and> Bad ex' = Bad ex)"
proof (induction after arbitrary: st ex)
  case Nil
  then show ?case by simp
next
  case (Cons l after)
  from Cons.prems scanLine_outside [of st ex l U]
  obtain ex1 where s1: "\<not> inCodeBlock (scanLine U st l)" "currentContent (scanLine U st l) = []"
    "currentExample (scanLine U st l) = Some ex1"
    and e1: "ETitle ex1 = ETitle ex" "Good ex1 = Good ex" "Bad ex1 = Bad ex"
    by auto
  from Cons.prems have "list_all (\<lambda>l. \<not> fenceLine l \<and> \<not> exampleHeaderLine U l) after"
    by simp
  from Cons.IH [OF s1 this] e1 show ?case by simp
qed

text \<open>One complete block: whatever the example held, the field its title selects is the
  trimmed content of this block afterwards.\<close>

lemma block_overwrites:
  assumes st: "\<not> inCodeBlock st" "currentContent st = []" "currentExample st = Some ex"
    and b: "completeBlock U b"
  shows "\<not> inCodeBlock (foldl (scanLine U) st (blockLines b))
     \<and> currentContent (foldl (scanLine U) st (blockLines b)) = []
     \<and> (\<exists>ex'. currentExample (foldl (scanLine U) st (blockLines b)) = Some ex'
            \<and> ETitle ex' = ETitle ex
            \<and> (goodTitle U (ETitle ex) \<longrightarrow>
                 Good ex' = strings_TrimSpace (codeContent (blockBody b)))
            \<and> (\<not> goodTitle U (ETitle ex) \<and> badTitle U (ETitle ex) \<longrightarrow>
                 Bad ex' = strings_TrimSpace (codeContent (blockBody b))))"
proof -
  obtain fence1 body fence2 after where bb: "b = (fence1, body, fence2, after)"
    by (cases b)
  from b bb have f: "fenceLine fence1" "fenceLine fence2"
    and nb: "list_all (\<lambda>l. \<not> fenceLine l) body"
    and na: "list_all (\<lambda>l. \<not> fenceLine l \<and> \<not> exampleHeaderLine U l) after"
    by (simp_all add: completeBlock_def)
  let ?s1 = "scanLine U st fence1"
  let ?s2 = "foldl (scanLine U) ?s1 body"
  let ?s3 = "scanLine U ?s2 fence2"
  have s1: "inCodeBlock ?s1" "currentContent ?s1 = []" "currentExample ?s1 = Some ex"
    using st f(1) by (simp_all add: scanLine_open openCodeBlock_def)
  from foldl_scanLine_inside [OF s1(1) nb, of U] s1
  have s2: "inCodeBlock ?s2" "currentExample ?s2 = Some ex"
    "currentContent ?s2 = codeContent body"
    by simp_all
  let ?ex3 = "if goodTitle U (ETitle ex) then ex\<lparr>Good := strings_TrimSpace (codeContent body)\<rparr>
              else if badTitle U (ETitle ex) then ex\<lparr>Bad := strings_TrimSpace (codeContent body)\<rparr>
              else ex"
  have s3: "\<not> inCodeBlock ?s3" "currentContent ?s3 = []" "currentExample ?s3 = Some ?ex3"
    using s2 f(2) by (simp_all add: scanLine_close closeCodeBlock_def goodTitle_def badTitle_def)
  from foldl_scanLine_outside [OF s3 na]
  obtain ex' where s4: "\<not> inCodeBlock (foldl (scanLine U) ?s3 after)"
    "currentContent (foldl (scanLine U) ?s3 after) = []"
    "currentExample (foldl (scanLine U) ?s3 after) = Some ex'"
    and e4: "ETitle ex' = ETitle ?ex3" "Good ex' = Good ?ex3" "Bad ex' = Bad ?ex3"
    by blast
  have "foldl (scanLine U) st (blockLines b) = foldl (scanLine U) ?s3 after"
    by (simp add: bb blockLines_def)
  with s4 e4 show ?thesis
    by (auto simp: bb blockBody_def)
qed

lemma blocks_last_wins:
  "\<not> inCodeBlock st \<Longrightarrow> currentContent st = [] \<Longrightarrow> currentExample st = Some ex \<Longrightarrow>
   bs \<noteq> [] \<Longrightarrow> list_all (completeBlock U) bs \<Longrightarrow>
     \<exists>ex'. currentExample (foldl (scanLine U) st (concat (map blockLines bs))) = Some ex'
        \<and> ETitle ex' = ETitle ex
        \<and> (goodTitle U (ETitle ex) \<longrightarrow>
             Good ex' = strings_TrimSpace (codeContent (blockBody (last bs))))
        \<and> (\<not> goodTitle U (ETitle ex) \<and> badTitle U (ETitle ex) \<longrightarrow>
             Bad ex' = strings_TrimSpace (codeContent (blockBody (last bs))))"
proof (induction bs arbitrary: st ex)
  case Nil
  then show ?case by simp
next
  case (Cons b bs)
  from Cons.prems have cb: "completeBlock U b" by simp
  from block_overwrites [OF Cons.prems(1-3) cb]
  obtain ex1 where s1: "\<not> inCodeBlock (foldl (scanLine U) st (blockLines b))"
    "currentContent (foldl (scanLine U) st (blockLines b)) = []"
    "currentExample (foldl (scanLine U) st (blockLines b)) = Some ex1"
    and e1: "ETitle ex1 = ETitle ex"
    "goodTitle U (ETitle ex) \<longrightarrow> Good ex1 = strings_TrimSpace (codeContent (blockBody b))"
    "\<not> goodTitle U (ETitle ex) \<and> badTitle U (ETitle ex) \<longrightarrow>
       Bad ex1 = strings_TrimSpace (codeContent (blockBody b))"
    by blast
  show ?case
  proof (cases "bs = []")
    case True
    with s1 e1 show ?thesis by simp
  next
    case False
    from Cons.prems have "list_all (completeBlock U) bs" by simp
    from Cons.IH [OF s1 False this] e1(1) False show ?thesis by simp
  qed
qed

lemma scanLine_keeps_empty_content:
  "(\<not> inCodeBlock st \<longrightarrow> currentContent st = []) \<Longrightarrow>
     (\<not> inCodeBlock (scanLine U st l) \<longrightarrow> currentContent (scanLine U st l) = [])"
  by (auto simp: scan_defs split: option.splits if_splits)

lemma foldl_scanLine_keeps_empty_content:
  "(\<not> inCodeBlock st \<longrightarrow> currentContent st = []) \<Longrightarrow>
     (\<not> inCodeBlock (foldl (scanLine U) st ls) \<longrightarrow> currentContent (foldl (scanLine U) st ls) = [])"
  by (induction ls arbitrary: st) (simp_all add: scanLine_keeps_empty_content)

lemma scanLine_example_header:
  "\<not> inCodeBlock st \<Longrightarrow> exampleHeaderLine U l \<Longrightarrow>
     scanLine U st l = startExample st (strings_TrimSpace l)"
  by (simp add: scanLine_def Let_def exampleHeaderLine_def)

text \<open>
  Claim C10. Within the scan of one section, after any lines that end outside a code
  block, let an example-header line be followed by one or more complete fenced blocks,
  with no fence and no example header among the lines between them. Then the example in
  progress has the header as its title, and when the title passes the test for good, its
  good field is the trimmed content of the last block; when it passes only the test for
  bad, its bad field is. The content of the earlier blocks is gone.
\<close>

theorem C10_last_block_wins:
  assumes "\<not> inCodeBlock (foldl (scanLine U) (initScan n) before)"
    and "exampleHeaderLine U header"
    and "bs \<noteq> []"
    and "list_all (completeBlock U) bs"
  shows "\<exists>ex. currentExample
            (foldl (scanLine U) (initScan n) (before @ header # concat (map blockLines bs)))
          = Some ex
       \<and> ETitle ex = strings_TrimSpace header
       \<and> (goodTitle U (strings_TrimSpace header) \<longrightarrow>
            Good ex = strings_TrimSpace (codeContent (blockBody (last bs))))
       \<and> (\<not> goodTitle U (strings_TrimSpace header) \<and> badTitle U (strings_TrimSpace header) \<longrightarrow>
            Bad ex = strings_TrimSpace (codeContent (blockBody (last bs))))"
proof -
  let ?s0 = "foldl (scanLine U) (initScan n) before"
  let ?s1 = "scanLine U ?s0 header"
  have "\<not> inCodeBlock ?s0 \<longrightarrow> currentContent ?s0 = []"
    by (rule foldl_scanLine_keeps_empty_content) (simp add: initScan_def)
  with assms(1) have c0: "currentContent ?s0 = []" by simp
  have s1: "\<not> inCodeBlock ?s1" "currentContent ?s1 = []"
    "currentExample ?s1 = Some (newExample (strings_TrimSpace header))"
    using assms(1,2) c0 by (simp_all add: scanLine_example_header startExample_def)
  from blocks_last_wins [OF s1 assms(3,4)] show ?thesis
    by (simp add: newExample_def)
qed

theorem C10_last_block_wins_witness:
  "\<not> inCodeBlock (foldl (scanLine (\<lambda>s. s)) (initScan 1) [''# T''])
   \<and> exampleHeaderLine (\<lambda>s. s) ''Good example''
   \<and> list_all (completeBlock (\<lambda>s. s))
        [(''```'', [''a''], ''```'', [''text'']), (''```ts'', [''  b''], ''```'', [])]
   \<and> goodTitle (\<lambda>s. s) ''Good example''
   \<and> (\<exists>ex. currentExample (foldl (scanLine (\<lambda>s. s)) (initScan 1)
                ([''# T''] @ ''Good example'' # concat (map blockLines
                   [(''```'', [''a''], ''```'', [''text'']), (''```ts'', [''  b''], ''```'', [])])))
              = Some ex
            \<and> Good ex = ''b'')
   \<and> exampleHeaderLine (\<lambda>s. s) ''A bad one''
   \<and> \<not> goodTitle (\<lambda>s. s) ''A bad one''
   \<and> badTitle (\<lambda>s. s) ''A bad one''
   \<and> (\<exists>ex. currentExample (foldl (scanLine (\<lambda>s. s)) (initScan 1)
                ([''# T''] @ ''A bad one'' # concat (map blockLines
                   [(''```'', [''a''], ''```'', [''text'']), (''```ts'', [''  b''], ''```'', [])])))
              = Some ex
            \<and> Bad ex = ''b'')"
proof -
  let ?U = "\<lambda>s::string. s"
  let ?bs = "[(''```'', [''a''], ''```'', [''text'']), (''```ts'', [''  b''], ''```'', [])]"
  have h1: "\<not> inCodeBlock (foldl (scanLine ?U) (initScan 1) [''# T''])"
    by (simp add: model_defs)
  have h2: "exampleHeaderLine ?U ''Good example''"
    by (simp add: vocabulary_defs model_defs)
  have h2': "exampleHeaderLine ?U ''A bad one''"
    by (simp add: vocabulary_defs model_defs)
  have h3: "?bs \<noteq> []" by simp
  have h4: "list_all (completeBlock ?U) ?bs"
    by (simp add: vocabulary_defs model_defs)
  have g: "goodTitle ?U ''Good example''"
    by (simp add: vocabulary_defs model_defs)
  have b: "\<not> goodTitle ?U ''A bad one''" "badTitle ?U ''A bad one''"
    by (simp_all add: vocabulary_defs model_defs)
  have t: "strings_TrimSpace ''Good example'' = ''Good example''"
    "strings_TrimSpace ''A bad one'' = ''A bad one''"
    by (simp_all add: model_defs)
  have c: "strings_TrimSpace (codeContent (blockBody (last ?bs))) = ''b''"
    by (simp add: vocabulary_defs model_defs)
  from C10_last_block_wins [OF h1 h2 h3 h4] g
  have r1: "\<exists>ex. currentExample (foldl (scanLine ?U) (initScan 1)
                ([''# T''] @ ''Good example'' # concat (map blockLines ?bs))) = Some ex
            \<and> Good ex = ''b''"
    unfolding t c by blast
  from C10_last_block_wins [OF h1 h2' h3 h4] b
  have r2: "\<exists>ex. currentExample (foldl (scanLine ?U) (initScan 1)
                ([''# T''] @ ''A bad one'' # concat (map blockLines ?bs))) = Some ex
            \<and> Bad ex = ''b''"
    unfolding t c by blast
  from h1 h2 h2' h4 g b r1 r2 show ?thesis by blast
qed

section \<open>The title tests at the end of a code block\<close>

lemma strings_Contains_iff: "strings_Contains s sub = (\<exists>a b. s = a @ sub @ b)"
proof
  show "strings_Contains s sub \<Longrightarrow> \<exists>a b. s = a @ sub @ b"
  proof (induction s)
    case Nil
    then show ?case by simp
  next
    case (Cons c cs)
    show ?case
    proof (cases "strings_HasPrefix (c # cs) sub")
      case True
      then have "c # cs = [] @ sub @ drop (length sub) (c # cs)"
        by (metis append_Nil append_take_drop_id strings_HasPrefix_def)
      then show ?thesis by blast
    next
      case False
      with Cons obtain a b where "cs = a @ sub @ b" by auto
      then have "c # cs = (c # a) @ sub @ b" by simp
      then show ?thesis by blast
    qed
  qed
next
  assume "\<exists>a b. s = a @ sub @ b"
  then obtain a b where "s = a @ sub @ b" by blast
  then show "strings_Contains s sub"
  proof (induction a arbitrary: s)
    case Nil
    then have p: "strings_HasPrefix s sub"
      by (simp add: strings_HasPrefix_def)
    show ?case
    proof (cases s)
      case Nil
      with \<open>s = [] @ sub @ b\<close> show ?thesis by simp
    next
      case (Cons c cs)
      with p show ?thesis by simp
    qed
  next
    case (Cons x a)
    then show ?case by simp
  qed
qed

lemma strings_Contains_part:
  "strings_Contains s (p @ sub @ q) \<Longrightarrow> strings_Contains s sub"
proof -
  assume "strings_Contains s (p @ sub @ q)"
  then obtain a b where "s = a @ (p @ sub @ q) @ b"
    by (auto simp: strings_Contains_iff)
  then have "s = (a @ p) @ sub @ (q @ b)" by simp
  then show ?thesis
    unfolding strings_Contains_iff by blast
qed

lemma dont_contains_do: "strings_Contains s ''don't'' \<Longrightarrow> strings_Contains s ''do''"
  using strings_Contains_part [of s "[]" "''do''" "''n't''"] by simp

lemma incorrect_contains_correct:
  "strings_Contains s ''incorrect'' \<Longrightarrow> strings_Contains s ''correct''"
  using strings_Contains_part [of s "''in''" "''correct''" "[]"] by simp

text \<open>A title with \<open>don't\<close> or \<open>incorrect\<close> in it passes the first test, for \<open>do\<close> and
  \<open>correct\<close>: the content goes to the good field, and the second test is never reached
  for these two words.\<close>

lemma closeCodeBlock_dont_incorrect:
  assumes "currentExample st = Some ex"
    and "strings_Contains (strings_ToLower U (ETitle ex)) ''don't''
         \<or> strings_Contains (strings_ToLower U (ETitle ex)) ''incorrect''"
  shows "currentExample (closeCodeBlock U st)
           = Some (ex\<lparr>Good := strings_TrimSpace (currentContent st)\<rparr>)"
  using assms dont_contains_do incorrect_contains_correct
  by (auto simp: closeCodeBlock_def)

text \<open>
  Claim C2, at a document of five lines: the heading \<open># Loops\<close>, the example header
  \<open>Don't example\<close>, an opening fence, the line \<open>x\<close> and a closing fence. The example's title
  contains \<open>don't\<close>, the claim sends the content \<open>x\<close> to the bad field, and the code stores
  it in the good field and leaves the bad field empty.
\<close>

theorem C2_dont_title_goes_to_good:
  "parseContent (\<lambda>s. s) ''# Loops\<newline>Don't example\<newline>```\<newline>x\<newline>```''
     = [\<lparr>ID = ''guideline_1'', Title = ''Loops'', Description = ''Loops'', Category = ''general'',
         Priority = ''medium'',
         Examples = [\<lparr>ETitle = ''Don't example'', Good = ''x'', Bad = [], Explanation = []\<rparr>],
         Rules = []\<rparr>]"
  by (simp add: model_defs)

section \<open>A sample document with headed examples\<close>

text \<open>
  Claim C3, as the code has it. Each of the three heading lines of the sample document
  starts a section, so the document yields three guidelines, titled \<open>Naming\<close>,
  \<open>Bad Example\<close> and \<open>Good Example\<close>; a line such as \<^verbatim>\<open>```bad code```\<close> only opens a code
  block, which the end of its section leaves open, so no guideline has any example.
\<close>

theorem C3_sample_document:
  "parseContent U ''## Naming\<newline>### Bad Example\<newline>```bad code```\<newline>### Good Example\<newline>```good code```''
     = [\<lparr>ID = ''guideline_1'', Title = ''Naming'', Description = ''Naming'',
         Category = ''naming'', Priority = ''medium'', Examples = [], Rules = []\<rparr>,
        \<lparr>ID = ''guideline_2'', Title = ''Bad Example'', Description = ''Bad Example'',
         Category = ''general'', Priority = ''medium'', Examples = [], Rules = []\<rparr>,
        \<lparr>ID = ''guideline_3'', Title = ''Good Example'', Description = ''Good Example'',
         Category = ''general'', Priority = ''medium'', Examples = [], Rules = []\<rparr>]"
  by (simp add: model_defs)

theorem C3_sample_document_witness:
  "map Title (parseContent (\<lambda>s. s) ''## Naming\<newline>### Bad Example\<newline>```bad code```\<newline>### Good Example\<newline>```good code```'')
     = [''Naming'', ''Bad Example'', ''Good Example'']
   \<and> map Examples (parseContent (\<lambda>s. s) ''## Naming\<newline>### Bad Example\<newline>```bad code```\<newline>### Good Example\<newline>```good code```'')
     = [[], [], []]"
  using C3_sample_document [of "\<lambda>s. s"] by simp

text \<open>Claim C3 as stated fails: the guidelines of the sample document have no example
  entry at all.\<close>

theorem C3_two_examples_counterexample:
  "concat (map Examples (parseContent (\<lambda>s. s) ''## Naming\<newline>### Bad Example\<newline>```bad code```\<newline>### Good Example\<newline>```good code```'')) = []"
  by (simp add: model_defs)

end
